theory Spec2Isabelle
  imports Complex_Main "HOL-Library.Log_Nat"
begin

section \<open>JavaScript numbers\<close>

text \<open>
  The calculator computes with JavaScript numbers. A number is modelled as a real or one
  of the four special values that the arithmetic of the source can produce:
  \<open>NaN\<close>, the two infinities and the negative zero (\<open>Fin 0\<close> is the positive zero).
  Division by zero therefore yields an infinity or \<open>NaN\<close> as it does in the source, not
  HOL's \<open>x / 0 = 0\<close>. Finite results of the operations of this section are exact: the
  rounding of a binary64 operation, and overflow and underflow at the ends of its range,
  are added in the section on binary64 rounding, for the locals from which the maximum
  batch size is computed.
\<close>

datatype number = NaN | PInf | NInf | NZero | Fin real

fun signbit :: "number \<Rightarrow> bool" where
  "signbit NaN = False"
| "signbit PInf = False"
| "signbit NInf = True"
| "signbit NZero = True"
| "signbit (Fin r) = (r < 0)"

fun mag :: "number \<Rightarrow> real" where
  "mag (Fin r) = r"
| "mag _ = 0"

definition is_inf :: "number \<Rightarrow> bool" where
  "is_inf x = (x = PInf \<or> x = NInf)"

definition is_zero :: "number \<Rightarrow> bool" where
  "is_zero x = (x = NZero \<or> x = Fin 0)"

definition signed_inf :: "bool \<Rightarrow> number" where
  "signed_inf s = (if s then NInf else PInf)"

definition signed_zero :: "bool \<Rightarrow> number" where
  "signed_zero s = (if s then NZero else Fin 0)"

definition fin :: "real \<Rightarrow> bool \<Rightarrow> number" where
  \<comment> \<open>a finite result with the sign \<open>s\<close> that an exact zero takes\<close>
  "fin r s = (if r = 0 then signed_zero s else Fin r)"

fun js_neg :: "number \<Rightarrow> number" where
  "js_neg NaN = NaN"
| "js_neg PInf = NInf"
| "js_neg NInf = PInf"
| "js_neg NZero = Fin 0"
| "js_neg (Fin r) = (if r = 0 then NZero else Fin (- r))"

definition js_mul :: "number \<Rightarrow> number \<Rightarrow> number" where
  \<comment> \<open>\<open>a * b\<close>\<close>
  "js_mul a b =
     (if a = NaN \<or> b = NaN then NaN
      else if is_inf a then (if is_zero b then NaN else signed_inf (signbit a \<noteq> signbit b))
      else if is_inf b then (if is_zero a then NaN else signed_inf (signbit a \<noteq> signbit b))
      else fin (mag a * mag b) (signbit a \<noteq> signbit b))"

definition js_div :: "number \<Rightarrow> number \<Rightarrow> number" where
  \<comment> \<open>\<open>a / b\<close>\<close>
  "js_div a b =
     (if a = NaN \<or> b = NaN then NaN
      else if is_inf a then (if is_inf b then NaN else signed_inf (signbit a \<noteq> signbit b))
      else if is_inf b then signed_zero (signbit a \<noteq> signbit b)
      else if is_zero b then (if is_zero a then NaN else signed_inf (signbit a \<noteq> signbit b))
      else fin (mag a / mag b) (signbit a \<noteq> signbit b))"

definition js_add :: "number \<Rightarrow> number \<Rightarrow> number" where
  \<comment> \<open>\<open>a + b\<close>\<close>
  "js_add a b =
     (if a = NaN \<or> b = NaN then NaN
      else if is_inf a then (if is_inf b \<and> a \<noteq> b then NaN else a)
      else if is_inf b then b
      else if a = NZero \<and> b = NZero then NZero
      else Fin (mag a + mag b))"

definition js_sub :: "number \<Rightarrow> number \<Rightarrow> number" where
  \<comment> \<open>\<open>a - b\<close>\<close>
  "js_sub a b = js_add a (js_neg b)"

fun js_floor :: "number \<Rightarrow> number" where
  \<comment> \<open>\<open>Math.floor(x)\<close>\<close>
  "js_floor (Fin r) = Fin (of_int \<lfloor>r\<rfloor>)"
| "js_floor x = x"

definition js_lt :: "number \<Rightarrow> number \<Rightarrow> bool" where
  \<comment> \<open>the order \<open>Math.min\<close> compares by: the negative zero is below the positive one\<close>
  "js_lt a b =
     (a \<noteq> NaN \<and> b \<noteq> NaN \<and> a \<noteq> b \<and>
      (a = NInf \<or> b = PInf \<or>
       (a \<noteq> PInf \<and> b \<noteq> NInf \<and> (mag a < mag b \<or> (mag a = mag b \<and> a = NZero)))))"

definition js_min :: "number \<Rightarrow> number \<Rightarrow> number" where
  \<comment> \<open>\<open>Math.min(a, b)\<close>\<close>
  "js_min a b = (if a = NaN \<or> b = NaN then NaN else if js_lt b a then b else a)"

definition js_seq :: "number \<Rightarrow> number \<Rightarrow> bool" where
  \<comment> \<open>\<open>a === b\<close> on numbers\<close>
  "js_seq a b = (a \<noteq> NaN \<and> b \<noteq> NaN \<and> (a = b \<or> (is_zero a \<and> is_zero b)))"


section \<open>Data model of the calculator\<close>

datatype GpuType = A100_80GB | H100_80GB

record GpuSpec =
  memory :: real
  memoryBandwidth :: real
  memoryBandwidthEffective :: real
  computeThroughput :: real
  computeThroughputEffective :: real

text \<open>
  The fields of a configuration are finite numbers: the component writes them only in its
  initial state and in \<open>handleInputChange\<close>, whose \<open>parseFloat(value) || 0\<close> replaces
  \<open>NaN\<close> and both zeros by the positive zero. \<open>gpuType\<close> has the source's two-valued type.
\<close>

record InferenceConfig =
  modelSize :: real
  sequenceLength :: real
  batchSize :: real
  numGpus :: real
  gpuType :: GpuType
  precision :: real
  gpuCostPerHour :: real
  promptTokens :: real
  completionTokens :: real

record Gpt35Comparison =
  promptSavings :: number
  completionSavings :: number

text \<open>
  The source formats twelve of the fields with \<open>toFixed\<close> for display. The record below
  holds, in each of those fields, the number that the source hands to \<open>toFixed\<close>;
  the decimal rendering itself is not modelled. \<open>maxBatchSize\<close> and \<open>optimalBatchSize\<close>
  are numbers in the source as well.
\<close>

record InferenceResults =
  modelWeightsGB :: number
  kvCacheTotalGB :: number
  totalMemoryGB :: number
  memoryUtilization :: number
  promptProcessingTime :: number
  completionTime :: number
  promptTokensPerSecond :: number
  generationTokensPerSecond :: number
  totalTime :: number
  totalCost :: number
  promptCostPer1k :: number
  completionCostPer1k :: number
  maxBatchSize :: number
  optimalBatchSize :: number
  gpt35Comparison :: Gpt35Comparison

text \<open>The two pieces of component state: \<open>config\<close> and \<open>results\<close> (initially \<open>null\<close>).\<close>

record calculator =
  config :: InferenceConfig
  results :: "InferenceResults option"

definition initialConfig :: InferenceConfig where
  "initialConfig =
     \<lparr> modelSize = 70, sequenceLength = 2048, batchSize = 1, numGpus = 2,
       gpuType = A100_80GB, precision = 16, gpuCostPerHour = 2.21,
       promptTokens = 1000, completionTokens = 500 \<rparr>"

fun gpuSpecs :: "GpuType \<Rightarrow> GpuSpec" where
  "gpuSpecs A100_80GB =
     \<lparr> memory = 80, memoryBandwidth = 2.0, memoryBandwidthEffective = 1.3,
       computeThroughput = 312, computeThroughputEffective = 200 \<rparr>"
| "gpuSpecs H100_80GB =
     \<lparr> memory = 80, memoryBandwidth = 3.35, memoryBandwidthEffective = 2.2,
       computeThroughput = 989, computeThroughputEffective = 630 \<rparr>"


section \<open>calculateInference\<close>

text \<open>
  Each local constant of \<open>calculateInference\<close> is a definition over the configuration,
  in the order of the source. A local whose name is also a field of \<open>InferenceResults\<close>
  carries the suffix \<open>_num\<close>.
\<close>

definition gpu :: "InferenceConfig \<Rightarrow> GpuSpec" where
  "gpu c = gpuSpecs (gpuType c)"

definition modelParams :: "InferenceConfig \<Rightarrow> number" where
  "modelParams c = Fin (modelSize c)"

definition modelWeightsGB_num :: "InferenceConfig \<Rightarrow> number" where
  "modelWeightsGB_num c = js_div (js_mul (modelParams c) (Fin (precision c))) (Fin 8)"

definition kvCachePerTokenMB :: "InferenceConfig \<Rightarrow> number" where
  "kvCachePerTokenMB c =
     (if js_seq (Fin (modelSize c)) (Fin 70) then Fin 0.41
      else js_mul (js_div (Fin (modelSize c)) (Fin 70)) (Fin 0.41))"

definition kvCacheTotalGB_num :: "InferenceConfig \<Rightarrow> number" where
  "kvCacheTotalGB_num c =
     js_div (js_mul (js_mul (kvCachePerTokenMB c) (Fin (sequenceLength c))) (Fin (batchSize c)))
            (Fin 1024)"

definition totalMemoryGB_num :: "InferenceConfig \<Rightarrow> number" where
  "totalMemoryGB_num c = js_add (modelWeightsGB_num c) (kvCacheTotalGB_num c)"

definition totalGpuMemory :: "InferenceConfig \<Rightarrow> number" where
  "totalGpuMemory c = js_mul (Fin (memory (gpu c))) (Fin (numGpus c))"

definition memoryUtilization_num :: "InferenceConfig \<Rightarrow> number" where
  "memoryUtilization_num c = js_mul (js_div (totalMemoryGB_num c) (totalGpuMemory c)) (Fin 100)"

definition flopsPerToken :: "InferenceConfig \<Rightarrow> number" where
  "flopsPerToken c = js_mul (js_mul (Fin 2) (modelParams c)) (Fin (10 ^ 9))"

definition promptFlops :: "InferenceConfig \<Rightarrow> number" where
  "promptFlops c = js_mul (flopsPerToken c) (Fin (promptTokens c))"

definition totalComputeThroughput :: "InferenceConfig \<Rightarrow> number" where
  "totalComputeThroughput c =
     js_mul (js_mul (Fin (computeThroughputEffective (gpu c))) (Fin (numGpus c))) (Fin (10 ^ 12))"

definition totalMemoryBandwidth :: "InferenceConfig \<Rightarrow> number" where
  "totalMemoryBandwidth c =
     js_mul (js_mul (Fin (memoryBandwidthEffective (gpu c))) (Fin (numGpus c))) (Fin (10 ^ 12))"

definition promptProcessingTime_num :: "InferenceConfig \<Rightarrow> number" where
  "promptProcessingTime_num c = js_div (promptFlops c) (totalComputeThroughput c)"

definition promptTokensPerSecond_num :: "InferenceConfig \<Rightarrow> number" where
  "promptTokensPerSecond_num c = js_div (Fin (promptTokens c)) (promptProcessingTime_num c)"

definition memoryPerToken :: "InferenceConfig \<Rightarrow> number" where
  "memoryPerToken c =
     js_add (js_mul (modelWeightsGB_num c) (Fin (10 ^ 9)))
            (js_mul (js_mul (kvCachePerTokenMB c) (Fin (batchSize c))) (Fin (10 ^ 6)))"

definition generationTokensPerSecond_num :: "InferenceConfig \<Rightarrow> number" where
  "generationTokensPerSecond_num c =
     js_mul (js_div (totalMemoryBandwidth c) (memoryPerToken c)) (Fin (batchSize c))"

definition completionTime_num :: "InferenceConfig \<Rightarrow> number" where
  "completionTime_num c = js_div (Fin (completionTokens c)) (generationTokensPerSecond_num c)"

definition totalTime_num :: "InferenceConfig \<Rightarrow> number" where
  "totalTime_num c = js_add (promptProcessingTime_num c) (completionTime_num c)"

definition costPerSecond :: "InferenceConfig \<Rightarrow> number" where
  "costPerSecond c = js_div (js_mul (Fin (gpuCostPerHour c)) (Fin (numGpus c))) (Fin 3600)"

definition totalCost_num :: "InferenceConfig \<Rightarrow> number" where
  "totalCost_num c = js_mul (costPerSecond c) (totalTime_num c)"

definition promptCostPer1k_num :: "InferenceConfig \<Rightarrow> number" where
  "promptCostPer1k_num c =
     js_div (js_mul (js_mul (costPerSecond c) (promptProcessingTime_num c)) (Fin 1000))
            (Fin (promptTokens c))"

definition completionCostPer1k_num :: "InferenceConfig \<Rightarrow> number" where
  "completionCostPer1k_num c =
     js_div (js_mul (js_mul (costPerSecond c) (completionTime_num c)) (Fin 1000))
            (Fin (completionTokens c))"

definition kvCachePerBatchGB :: "InferenceConfig \<Rightarrow> number" where
  \<comment> \<open>the divisor \<open>(kvCacheTotalGB / batchSize)\<close> of \<open>maxBatchSize\<close>\<close>
  "kvCachePerBatchGB c = js_div (kvCacheTotalGB_num c) (Fin (batchSize c))"

definition maxBatchSize_num :: "InferenceConfig \<Rightarrow> number" where
  "maxBatchSize_num c =
     js_floor (js_div (js_sub (totalGpuMemory c) (modelWeightsGB_num c)) (kvCachePerBatchGB c))"

definition optimalBatchSize_num :: "InferenceConfig \<Rightarrow> number" where
  "optimalBatchSize_num c = js_min (maxBatchSize_num c) (Fin 64)"

definition gpt35PromptCost :: number where
  "gpt35PromptCost = Fin 0.0015"

definition gpt35CompletionCost :: number where
  "gpt35CompletionCost = Fin 0.002"

definition inferenceResults :: "InferenceConfig \<Rightarrow> InferenceResults" where
  \<comment> \<open>the object that \<open>calculateInference\<close> passes to \<open>setResults\<close>\<close>
  "inferenceResults c =
     \<lparr> modelWeightsGB = modelWeightsGB_num c,
       kvCacheTotalGB = kvCacheTotalGB_num c,
       totalMemoryGB = totalMemoryGB_num c,
       memoryUtilization = memoryUtilization_num c,
       promptProcessingTime = js_mul (promptProcessingTime_num c) (Fin 1000),
       completionTime = completionTime_num c,
       promptTokensPerSecond = promptTokensPerSecond_num c,
       generationTokensPerSecond = generationTokensPerSecond_num c,
       totalTime = totalTime_num c,
       totalCost = js_mul (totalCost_num c) (Fin 1000),
       promptCostPer1k = promptCostPer1k_num c,
       completionCostPer1k = completionCostPer1k_num c,
       maxBatchSize = maxBatchSize_num c,
       optimalBatchSize = optimalBatchSize_num c,
       gpt35Comparison =
         \<lparr> promptSavings =
             js_mul (js_div (js_sub gpt35PromptCost (promptCostPer1k_num c)) gpt35PromptCost)
                    (Fin 100),
           completionSavings =
             js_mul (js_div (js_sub gpt35CompletionCost (completionCostPer1k_num c))
                            gpt35CompletionCost)
                    (Fin 100) \<rparr> \<rparr>"

definition calculateInference :: "calculator \<Rightarrow> calculator" where
  \<comment> \<open>reads \<open>config\<close>, stores the new \<open>results\<close>\<close>
  "calculateInference s = s\<lparr> results := Some (inferenceResults (config s)) \<rparr>"


section \<open>Valid configurations\<close>

text \<open>
  The source checks nothing. The constraints below are those the specification places on
  a workload configuration: positive model size, positive whole sequence length, batch
  size, accelerator count and token counts, a precision of 8, 16 or 32 bits and a
  non-negative hourly cost.
\<close>

definition whole :: "real \<Rightarrow> bool" where
  "whole x = (of_int \<lfloor>x\<rfloor> = x)"

definition valid_config :: "InferenceConfig \<Rightarrow> bool" where
  "valid_config c =
     (0 < modelSize c \<and>
      0 < sequenceLength c \<and> whole (sequenceLength c) \<and>
      0 < batchSize c \<and> whole (batchSize c) \<and>
      0 < numGpus c \<and> whole (numGpus c) \<and>
      (precision c = 8 \<or> precision c = 16 \<or> precision c = 32) \<and>
      0 \<le> gpuCostPerHour c \<and>
      0 < promptTokens c \<and> whole (promptTokens c) \<and>
      0 < completionTokens c \<and> whole (completionTokens c))"

definition fin_le :: "number \<Rightarrow> number \<Rightarrow> bool" where
  \<comment> \<open>both numbers are finite reals and the first is at most the second\<close>
  "fin_le a b = (case a of Fin x \<Rightarrow> (case b of Fin y \<Rightarrow> x \<le> y | _ \<Rightarrow> False) | _ \<Rightarrow> False)"


section \<open>Binary64 rounding\<close>

text \<open>
  A binary64 value has a significand of 53 bits. \<open>expo x\<close> is the exponent of the
  binade of \<open>x\<close>, that is \<open>\<lfloor>log\<^sub>2 \<bar>x\<bar>\<rfloor>\<close>; \<open>quantum x\<close> is the spacing of the binary64
  values there (that of the subnormal numbers below \<open>2 powi (- 1022)\<close>); \<open>b64\<close> rounds
  to the nearest multiple of the quantum, a tie to the even one; \<open>rnd\<close> adds the
  overflow to an infinity and the sign of a result that underflows to zero.
\<close>

definition expo :: "real \<Rightarrow> int" where
  "expo x = (if 1 \<le> \<bar>x\<bar> then bitlen \<lfloor>\<bar>x\<bar>\<rfloor> - 1 else - bitlen (\<lceil>1 / \<bar>x\<bar>\<rceil> - 1))"

definition quantum :: "real \<Rightarrow> real" where
  "quantum x = 2 powi (max (expo x) (- 1022) - 52)"

definition round_even :: "real \<Rightarrow> int" where
  "round_even y =
     (if y - of_int \<lfloor>y\<rfloor> < 1 / 2 then \<lfloor>y\<rfloor>
      else if 1 / 2 < y - of_int \<lfloor>y\<rfloor> then \<lfloor>y\<rfloor> + 1
      else if even \<lfloor>y\<rfloor> then \<lfloor>y\<rfloor> else \<lfloor>y\<rfloor> + 1)"

definition b64 :: "real \<Rightarrow> real" where
  "b64 x = of_int (round_even (x / quantum x)) * quantum x"

fun rnd :: "number \<Rightarrow> number" where
  "rnd (Fin r) =
     (if 2 ^ 1024 \<le> \<bar>b64 r\<bar> then signed_inf (r < 0)
      else if b64 r = 0 then signed_zero (r < 0)
      else Fin (b64 r))"
| "rnd x = x"


text \<open>
  A literal or a field as a binary64 value, and the operations \<open>*\<close>, \<open>/\<close> and \<open>-\<close>
  with their rounding.
\<close>

definition num64 :: "real \<Rightarrow> number" where
  "num64 x = rnd (Fin x)"

definition mul64 :: "number \<Rightarrow> number \<Rightarrow> number" where
  "mul64 a b = rnd (js_mul a b)"

definition div64 :: "number \<Rightarrow> number \<Rightarrow> number" where
  "div64 a b = rnd (js_div a b)"

definition sub64 :: "number \<Rightarrow> number \<Rightarrow> number" where
  "sub64 a b = rnd (js_sub a b)"

text \<open>
  The locals of \<open>calculateInference\<close> from which \<open>maxBatchSize\<close> is computed, with
  the rounding of every operation. The suffix \<open>_b64\<close> marks them. The integer literals
  8, 70 and 1024 and the memory of a GPU are binary64 values as they stand; \<open>Math.floor\<close>
  is exact.
\<close>

definition modelWeightsGB_b64 :: "InferenceConfig \<Rightarrow> number" where
  "modelWeightsGB_b64 c = div64 (mul64 (num64 (modelSize c)) (num64 (precision c))) (Fin 8)"

definition kvCachePerTokenMB_b64 :: "InferenceConfig \<Rightarrow> number" where
  "kvCachePerTokenMB_b64 c =
     (if js_seq (num64 (modelSize c)) (Fin 70) then num64 0.41
      else mul64 (div64 (num64 (modelSize c)) (Fin 70)) (num64 0.41))"

definition kvCacheTotalGB_b64 :: "InferenceConfig \<Rightarrow> number" where
  "kvCacheTotalGB_b64 c =
     div64 (mul64 (mul64 (kvCachePerTokenMB_b64 c) (num64 (sequenceLength c)))
                  (num64 (batchSize c)))
           (Fin 1024)"

definition totalGpuMemory_b64 :: "InferenceConfig \<Rightarrow> number" where
  "totalGpuMemory_b64 c = mul64 (Fin (memory (gpu c))) (num64 (numGpus c))"

definition kvCachePerBatchGB_b64 :: "InferenceConfig \<Rightarrow> number" where
  "kvCachePerBatchGB_b64 c = div64 (kvCacheTotalGB_b64 c) (num64 (batchSize c))"

definition maxBatchSize_b64 :: "InferenceConfig \<Rightarrow> number" where
  "maxBatchSize_b64 c =
     js_floor (div64 (sub64 (totalGpuMemory_b64 c) (modelWeightsGB_b64 c))
                     (kvCachePerBatchGB_b64 c))"

text \<open>A finite number between two powers of two; used to bound the locals below.\<close>

definition between :: "int \<Rightarrow> int \<Rightarrow> number \<Rightarrow> bool" where
  "between m n v = (case v of Fin y \<Rightarrow> 2 powi m \<le> y \<and> y \<le> 2 powi n | _ \<Rightarrow> False)"


section \<open>Arithmetic on finite numbers\<close>

lemma js_mul_Fin: "0 \<le> a \<Longrightarrow> 0 \<le> b \<Longrightarrow> js_mul (Fin a) (Fin b) = Fin (a * b)"
  by (simp add: js_mul_def is_inf_def fin_def signed_zero_def)

lemma js_div_Fin: "0 < b \<Longrightarrow> js_div (Fin a) (Fin b) = Fin (a / b)"
  by (simp add: js_div_def is_inf_def is_zero_def fin_def signed_zero_def)

lemma js_add_Fin: "js_add (Fin a) (Fin b) = Fin (a + b)"
  by (simp add: js_add_def is_inf_def)

lemma js_sub_Fin: "js_sub (Fin a) (Fin b) = Fin (a - b)"
  by (simp add: js_sub_def js_add_def is_inf_def)


lemma js_seq_Fin: "js_seq (Fin a) (Fin b) = (a = b)"
  by (auto simp add: js_seq_def is_zero_def)

lemma fin_le_Fin: "fin_le (Fin a) (Fin b) = (a \<le> b)"
  by (simp add: fin_le_def)


section \<open>The hardware table\<close>

lemma gpu_memory: "memory (gpu c) = 80"
  by (cases "gpuType c") (simp_all add: gpu_def)

lemma gpu_compute_pos: "0 < computeThroughputEffective (gpu c)"
  by (cases "gpuType c") (simp_all add: gpu_def)


section \<open>The locals of calculateInference on a valid configuration\<close>

lemma modelWeightsGB_valid:
  "valid_config c \<Longrightarrow> modelWeightsGB_num c = Fin (modelSize c * precision c / 8)"
  by (auto simp add: valid_config_def modelWeightsGB_num_def modelParams_def js_mul_Fin js_div_Fin)

lemma kvCachePerTokenMB_valid:
  "valid_config c \<Longrightarrow> kvCachePerTokenMB c = Fin (0.41 * (modelSize c / 70))"
  by (simp add: valid_config_def kvCachePerTokenMB_def js_seq_Fin js_mul_Fin js_div_Fin)

lemma kvCacheTotalGB_valid:
  "valid_config c \<Longrightarrow>
   kvCacheTotalGB_num c = Fin (0.41 * (modelSize c / 70) * sequenceLength c * batchSize c / 1024)"
  by (simp add: kvCacheTotalGB_num_def kvCachePerTokenMB_valid)
     (simp add: valid_config_def js_mul_Fin js_div_Fin)

lemma totalGpuMemory_valid:
  "valid_config c \<Longrightarrow> totalGpuMemory c = Fin (80 * numGpus c)"
  by (simp add: totalGpuMemory_def gpu_memory valid_config_def js_mul_Fin)

lemma memoryUtilization_valid:
  "valid_config c \<Longrightarrow>
   memoryUtilization_num c =
     Fin ((modelSize c * precision c / 8
           + 0.41 * (modelSize c / 70) * sequenceLength c * batchSize c / 1024)
          / (80 * numGpus c) * 100)"
  by (simp add: memoryUtilization_num_def totalMemoryGB_num_def modelWeightsGB_valid
        kvCacheTotalGB_valid totalGpuMemory_valid js_add_Fin)
     (auto simp add: valid_config_def js_mul_Fin js_div_Fin)

lemma kvCachePerBatchGB_valid:
  "valid_config c \<Longrightarrow>
   kvCachePerBatchGB c = Fin (0.41 * (modelSize c / 70) * sequenceLength c / 1024)"
  by (simp add: kvCachePerBatchGB_def kvCacheTotalGB_valid)
     (simp add: valid_config_def js_div_Fin)

lemma maxBatchSize_valid:
  "valid_config c \<Longrightarrow>
   maxBatchSize_num c =
     Fin (of_int \<lfloor>(80 * numGpus c - modelSize c * precision c / 8)
                   / (0.41 * (modelSize c / 70) * sequenceLength c / 1024)\<rfloor>)"
  by (simp add: maxBatchSize_num_def kvCachePerBatchGB_valid totalGpuMemory_valid
        modelWeightsGB_valid js_sub_Fin)
     (simp add: valid_config_def js_div_Fin)

lemma promptProcessingTime_valid:
  "valid_config c \<Longrightarrow>
   promptProcessingTime_num c =
     Fin (2 * modelSize c * 10 ^ 9 * promptTokens c
          / (computeThroughputEffective (gpu c) * numGpus c * 10 ^ 12))"
  using gpu_compute_pos [of c]
  by (simp add: promptProcessingTime_num_def promptFlops_def flopsPerToken_def modelParams_def
        totalComputeThroughput_def valid_config_def js_mul_Fin js_div_Fin)

lemma promptTokensPerSecond_valid:
  "valid_config c \<Longrightarrow>
   promptTokensPerSecond_num c =
     Fin (promptTokens c
          / (2 * modelSize c * 10 ^ 9 * promptTokens c
             / (computeThroughputEffective (gpu c) * numGpus c * 10 ^ 12)))"
  using gpu_compute_pos [of c]
  by (simp add: promptTokensPerSecond_num_def promptProcessingTime_valid)
     (simp add: valid_config_def js_div_Fin)


section \<open>Unfolding the model on a concrete configuration\<close>

lemmas locals_defs =
  modelWeightsGB_num_def modelParams_def kvCachePerTokenMB_def kvCacheTotalGB_num_def
  totalGpuMemory_def kvCachePerBatchGB_def maxBatchSize_num_def optimalBatchSize_num_def
  gpu_def

lemmas js_defs =
  js_mul_def js_div_def js_add_def js_sub_def js_min_def js_lt_def js_seq_def
  is_inf_def is_zero_def fin_def signed_zero_def signed_inf_def


section \<open>Division by a zero\<close>

lemma totalGpuMemory_any: "totalGpuMemory c = Fin (memory (gpu c) * numGpus c)"
  by (simp add: totalGpuMemory_def gpu_memory js_mul_def is_inf_def fin_def signed_zero_def)

lemma headroom_any:
  "js_sub (totalGpuMemory c) (modelWeightsGB_num c)
     = Fin (memory (gpu c) * numGpus c - modelSize c * precision c / 8)"
  by (simp add: totalGpuMemory_any modelWeightsGB_num_def modelParams_def js_mul_def js_div_def
        js_sub_def js_add_def is_inf_def is_zero_def fin_def signed_zero_def)

lemma js_div_by_zero:
  "is_zero z \<Longrightarrow>
   js_div (Fin h) z = (if h = 0 then NaN else signed_inf ((h < 0) \<noteq> signbit z))"
  by (auto simp add: js_div_def is_zero_def is_inf_def)

lemma js_floor_signed_inf: "js_floor (signed_inf s) = signed_inf s"
  by (simp add: signed_inf_def)


section \<open>Monotonicity of the memory utilization\<close>

lemma kv_product_mono:
  fixes m s b m' s' b' :: real
  assumes "0 < m" "0 < s" "0 < b" "m \<le> m'" "s \<le> s'" "b \<le> b'"
  shows "0.41 * (m / 70) * s * b / 1024 \<le> 0.41 * (m' / 70) * s' * b' / 1024"
proof -
  have "m * s \<le> m' * s'"
    using assms by (intro mult_mono) simp_all
  moreover have "0 \<le> m' * s'"
    using assms by simp
  ultimately have "m * s * b \<le> m' * s' * b'"
    using assms by (intro mult_mono) simp_all
  then show ?thesis
    by (simp add: field_simps)
qed

lemma memoryUtilization_mono:
  assumes "valid_config c" and "valid_config c'"
    and "numGpus c' = numGpus c" and "precision c' = precision c"
    and "modelSize c \<le> modelSize c'" and "sequenceLength c \<le> sequenceLength c'"
    and "batchSize c \<le> batchSize c'"
  shows "fin_le (memoryUtilization_num c) (memoryUtilization_num c')"
proof -
  have pos: "0 < modelSize c" "0 < sequenceLength c" "0 < batchSize c" "0 < numGpus c"
    "0 < precision c"
    using assms(1) by (auto simp add: valid_config_def)
  have w: "modelSize c * precision c / 8 \<le> modelSize c' * precision c / 8"
    using pos assms(5) by (simp add: mult_right_mono)
  have k: "0.41 * (modelSize c / 70) * sequenceLength c * batchSize c / 1024
           \<le> 0.41 * (modelSize c' / 70) * sequenceLength c' * batchSize c' / 1024"
    by (rule kv_product_mono [OF pos(1) pos(2) pos(3) assms(5) assms(6) assms(7)])
  have "(modelSize c * precision c / 8
          + 0.41 * (modelSize c / 70) * sequenceLength c * batchSize c / 1024)
        / (80 * numGpus c) * 100
      \<le> (modelSize c' * precision c / 8
          + 0.41 * (modelSize c' / 70) * sequenceLength c' * batchSize c' / 1024)
        / (80 * numGpus c) * 100"
    using w k pos by (intro mult_right_mono divide_right_mono add_mono) simp_all
  then show ?thesis
    using assms(1,2,3,4) by (simp add: memoryUtilization_valid fin_le_Fin)
qed

lemma memoryUtilization_antimono:
  assumes "valid_config c" and "valid_config c'"
    and "modelSize c' = modelSize c" and "precision c' = precision c"
    and "sequenceLength c' = sequenceLength c" and "batchSize c' = batchSize c"
    and "numGpus c \<le> numGpus c'"
  shows "fin_le (memoryUtilization_num c') (memoryUtilization_num c)"
proof -
  have pos: "0 < modelSize c" "0 < sequenceLength c" "0 < batchSize c" "0 < numGpus c"
    "0 < precision c"
    using assms(1) by (auto simp add: valid_config_def)
  define x where "x = modelSize c * precision c / 8
          + 0.41 * (modelSize c / 70) * sequenceLength c * batchSize c / 1024"
  have "0 \<le> x"
    using pos by (simp add: x_def)
  then have "x / (80 * numGpus c') \<le> x / (80 * numGpus c)"
    using pos assms(7) by (intro divide_left_mono) simp_all
  then have "x / (80 * numGpus c') * 100 \<le> x / (80 * numGpus c) * 100"
    by simp
  then show ?thesis
    using assms(1,2,3,4,5,6) by (simp add: memoryUtilization_valid fin_le_Fin x_def)
qed


section \<open>Properties of binary64 rounding\<close>

lemma two_powi_less_imp: "2 powi a < (2::real) powi b \<Longrightarrow> a < b"
proof (rule ccontr)
  assume h: "2 powi a < (2::real) powi b" and n: "\<not> a < b"
  have "2 powi b \<le> (2::real) powi a"
    using n by (intro power_int_increasing) simp_all
  with h show False by simp
qed

lemma expo_bounds:
  assumes "x \<noteq> 0"
  shows "2 powi (expo x) \<le> \<bar>x\<bar> \<and> \<bar>x\<bar> < 2 powi (expo x + 1)"
proof (cases "1 \<le> \<bar>x\<bar>")
  case True
  define n where "n = \<lfloor>\<bar>x\<bar>\<rfloor>"
  have n: "0 < n" using True by (simp add: n_def)
  have e: "expo x = bitlen n - 1" using True by (simp add: expo_def n_def)
  have b: "2 ^ nat (bitlen n - 1) \<le> n" "n < 2 ^ nat (bitlen n)"
    using bitlen_bounds [OF n] by simp_all
  have bl: "0 < bitlen n" using n bitlen_nonneg [of n] bitlen_eq_zero_iff [of n] by linarith
  have "2 powi (bitlen n - 1) = (2::real) ^ nat (bitlen n - 1)"
    using bl by (simp add: power_int_def)
  also have "\<dots> = of_int (2 ^ nat (bitlen n - 1))" by simp
  also have "\<dots> \<le> of_int n" using b(1) by (simp only: of_int_le_iff)
  also have "\<dots> \<le> \<bar>x\<bar>" by (simp add: n_def)
  finally have lo: "2 powi (expo x) \<le> \<bar>x\<bar>" by (simp add: e)
  have "n + 1 \<le> 2 ^ nat (bitlen n)" using b(2) by simp
  then have "(of_int (n + 1) :: real) \<le> of_int (2 ^ nat (bitlen n))"
    by (simp only: of_int_le_iff)
  moreover have "\<bar>x\<bar> < of_int (n + 1)" by (simp add: n_def)
  ultimately have "\<bar>x\<bar> < (2::real) ^ nat (bitlen n)" by simp
  moreover have "2 powi (bitlen n) = (2::real) ^ nat (bitlen n)"
    using bl by (simp add: power_int_def)
  ultimately have "\<bar>x\<bar> < 2 powi (expo x + 1)" by (simp add: e)
  with lo show ?thesis by simp
next
  case False
  define y where "y = 1 / \<bar>x\<bar>"
  define n where "n = \<lceil>y\<rceil> - 1"
  have xpos: "0 < \<bar>x\<bar>" using assms by simp
  have y1: "1 < y" using False xpos by (simp add: y_def)
  have n: "0 < n" using y1 by (simp add: n_def less_ceiling_iff)
  have e: "expo x = - bitlen n" using False by (simp add: expo_def n_def y_def)
  have b: "2 ^ nat (bitlen n - 1) \<le> n" "n < 2 ^ nat (bitlen n)"
    using bitlen_bounds [OF n] by simp_all
  have bl: "0 < bitlen n" using n bitlen_nonneg [of n] bitlen_eq_zero_iff [of n] by linarith
  have "n + 1 \<le> 2 ^ nat (bitlen n)" using b(2) by simp
  then have "(of_int (n + 1) :: real) \<le> of_int (2 ^ nat (bitlen n))"
    by (simp only: of_int_le_iff)
  moreover have "y \<le> of_int (n + 1)" by (simp add: n_def)
  ultimately have yle: "y \<le> (2::real) ^ nat (bitlen n)" by simp
  have "(of_int (2 ^ nat (bitlen n - 1)) :: real) \<le> of_int n"
    using b(1) by (simp only: of_int_le_iff)
  then have "(2::real) ^ nat (bitlen n - 1) \<le> of_int n"
    by (simp only: of_int_power of_int_numeral)
  moreover have "of_int n < y" using ceiling_correct [of y] by (simp add: n_def)
  ultimately have ygt: "(2::real) ^ nat (bitlen n - 1) < y" by linarith
  have p1: "2 powi (- bitlen n) = 1 / (2::real) ^ nat (bitlen n)"
    using bl by (simp add: power_int_def field_simps)
  have "2 powi (- (bitlen n - 1)) = 1 / (2::real) ^ nat (bitlen n - 1)"
    using bl by (simp only: power_int_minus) (simp add: power_int_def field_simps)
  then have p2: "2 powi (1 - bitlen n) = 1 / (2::real) ^ nat (bitlen n - 1)"
    by simp
  have "1 / (2::real) ^ nat (bitlen n) \<le> 1 / y"
    using yle y1 by (intro divide_left_mono) simp_all
  then have lo: "2 powi (expo x) \<le> \<bar>x\<bar>" by (simp add: e p1 y_def)
  have "1 / y < 1 / (2::real) ^ nat (bitlen n - 1)"
    using ygt y1 by (intro divide_strict_left_mono mult_pos_pos) simp_all
  then have "\<bar>x\<bar> < 2 powi (1 - bitlen n)" by (simp add: p2 y_def)
  then have "\<bar>x\<bar> < 2 powi (expo x + 1)" by (simp add: e)
  with lo show ?thesis by simp
qed

lemma expo_unique:
  assumes "2 powi e \<le> \<bar>x\<bar>" and "\<bar>x\<bar> < 2 powi (e + 1)"
  shows "expo x = e"
proof -
  have "(0::real) < 2 powi e" by simp
  with assms(1) have "0 < \<bar>x\<bar>" by linarith
  then have x: "x \<noteq> 0" by simp
  note b = expo_bounds [OF x]
  have "2 powi e < (2::real) powi (expo x + 1)" using assms(1) b by linarith
  then have 1: "e < expo x + 1" by (rule two_powi_less_imp)
  have "2 powi (expo x) < (2::real) powi (e + 1)" using assms(2) b by linarith
  then have 2: "expo x < e + 1" by (rule two_powi_less_imp)
  show ?thesis using 1 2 by simp
qed

lemma expo_scale: "x \<noteq> 0 \<Longrightarrow> expo (x * 2 powi k) = expo x + k"
proof (rule expo_unique)
  assume x: "x \<noteq> 0"
  note b = expo_bounds [OF x]
  have a: "\<bar>x * 2 powi k\<bar> = \<bar>x\<bar> * 2 powi k" by (simp add: abs_mult)
  show "2 powi (expo x + k) \<le> \<bar>x * 2 powi k\<bar>"
    using b by (simp add: a power_int_add)
  show "\<bar>x * 2 powi k\<bar> < 2 powi (expo x + k + 1)"
    using b by (simp add: a power_int_add)
qed

lemma expo_ge: "2 powi m \<le> \<bar>x\<bar> \<Longrightarrow> m \<le> expo x"
proof -
  assume h: "2 powi m \<le> \<bar>x\<bar>"
  have "(0::real) < 2 powi m" by simp
  with h have "0 < \<bar>x\<bar>" by linarith
  then have x: "x \<noteq> 0" by simp
  have "2 powi m < (2::real) powi (expo x + 1)" using h expo_bounds [OF x] by linarith
  then have "m < expo x + 1" by (rule two_powi_less_imp)
  then show ?thesis by simp
qed

lemma b64_scale:
  assumes "x \<noteq> 0" and "- 1022 \<le> expo x" and "- 1022 \<le> expo x + k"
  shows "b64 (x * 2 powi k) = b64 x * 2 powi k"
proof -
  have q: "quantum (x * 2 powi k) = quantum x * 2 powi k"
    using assms by (simp add: quantum_def expo_scale max_def power_int_add power_int_diff)
  have "x * 2 powi k / (quantum x * 2 powi k) = x / quantum x"
    by simp
  then show ?thesis
    by (simp add: b64_def q)
qed

lemma two_powi_le_imp: "2 powi a \<le> (2::real) powi b \<Longrightarrow> a \<le> b"
proof (rule ccontr)
  assume h: "2 powi a \<le> (2::real) powi b" and n: "\<not> a \<le> b"
  have "2 powi b < (2::real) powi a"
    using n by (intro power_int_strict_increasing) simp_all
  with h show False by simp
qed

lemma round_even_ge: "of_int a \<le> y \<Longrightarrow> a \<le> round_even y"
proof -
  assume "of_int a \<le> y"
  then have "a \<le> \<lfloor>y\<rfloor>" by (simp add: le_floor_iff)
  then show ?thesis by (simp add: round_even_def)
qed

lemma round_even_le: "y \<le> of_int b \<Longrightarrow> round_even y \<le> b"
proof (cases "y = of_int b")
  case True
  then show ?thesis by (simp add: round_even_def)
next
  case False
  assume "y \<le> of_int b"
  with False have "y < of_int b" by simp
  then have "\<lfloor>y\<rfloor> < b" by (simp add: floor_less_iff)
  then show ?thesis by (simp add: round_even_def)
qed

lemma b64_range:
  assumes lo: "2 powi m \<le> x" and hi: "x \<le> 2 powi n" and m: "- 1022 \<le> m"
  shows "2 powi m \<le> b64 x \<and> b64 x \<le> 2 powi n"
proof -
  have xpos: "0 < x" using lo by (rule less_le_trans [rotated]) simp
  then have ax: "\<bar>x\<bar> = x" by simp
  define e where "e = expo x"
  define q :: real where "q = 2 powi (e - 52)"
  have me: "m \<le> e" using lo by (simp add: e_def expo_ge ax)
  have b: "2 powi e \<le> x" "x < 2 powi (e + 1)"
    using expo_bounds [of x] xpos by (simp_all add: e_def)
  have "2 powi e \<le> (2::real) powi n" using b(1) hi by linarith
  then have en: "e \<le> n" by (rule two_powi_le_imp)
  have qpos: "0 < q" by (simp add: q_def)
  have "max (expo x) (- 1022) = e" using me m by (simp add: e_def)
  then have qx: "quantum x = q" by (simp only: quantum_def q_def)
  have pe: "2 powi e = 2 ^ 52 * q"
    by (simp add: q_def power_int_diff)
  have pe1: "2 powi (e + 1) = 2 ^ 53 * q"
    by (simp add: q_def power_int_diff power_int_add)
  have "of_int (2 ^ 52) \<le> x / q"
    using b(1) qpos by (simp add: pe pos_le_divide_eq)
  then have "2 ^ 52 \<le> round_even (x / q)" by (rule round_even_ge)
  then have "(of_int (2 ^ 52) :: real) \<le> of_int (round_even (x / q))"
    by (simp only: of_int_le_iff)
  then have "2 ^ 52 * q \<le> of_int (round_even (x / q)) * q"
    using qpos by (simp only: of_int_power of_int_numeral mult_le_cancel_right_pos)
  then have l: "2 powi e \<le> b64 x" by (simp add: b64_def qx pe)
  have "2 powi m \<le> (2::real) powi e" using me by (intro power_int_increasing) simp_all
  with l have low: "2 powi m \<le> b64 x" by linarith
  have up: "b64 x \<le> 2 powi n"
  proof (cases "e = n")
    case True
    with hi have "x \<le> 2 powi e" by simp
    then have "x \<le> 2 ^ 52 * q" by (simp only: pe)
    then have "x / q \<le> of_int (2 ^ 52)"
      using qpos by (simp add: pos_divide_le_eq)
    then have "round_even (x / q) \<le> 2 ^ 52" by (rule round_even_le)
    then have "(of_int (round_even (x / q)) :: real) \<le> of_int (2 ^ 52)"
      by (simp only: of_int_le_iff)
    then have "of_int (round_even (x / q)) * q \<le> 2 ^ 52 * q"
      using qpos by (simp only: of_int_power of_int_numeral mult_le_cancel_right_pos)
    then have "b64 x \<le> 2 powi e" by (simp add: b64_def qx pe)
    with True show ?thesis by simp
  next
    case False
    with en have "e + 1 \<le> n" by simp
    then have le: "2 powi (e + 1) \<le> (2::real) powi n"
      by (intro power_int_increasing) simp_all
    have "x / q \<le> of_int (2 ^ 53)"
      using b(2) qpos by (simp add: pe1 pos_divide_le_eq)
    then have "round_even (x / q) \<le> 2 ^ 53" by (rule round_even_le)
    then have "(of_int (round_even (x / q)) :: real) \<le> of_int (2 ^ 53)"
      by (simp only: of_int_le_iff)
    then have "of_int (round_even (x / q)) * q \<le> 2 ^ 53 * q"
      using qpos by (simp only: of_int_power of_int_numeral mult_le_cancel_right_pos)
    then have "b64 x \<le> 2 powi (e + 1)" by (simp add: b64_def qx pe1)
    with le show ?thesis by linarith
  qed
  from low up show ?thesis by simp
qed

lemma rnd_Fin_range:
  assumes "2 powi m \<le> x" and "x \<le> 2 powi n" and "- 1022 \<le> m" and "n \<le> 1023"
  shows "rnd (Fin x) = Fin (b64 x)"
proof -
  note r = b64_range [OF assms(1,2,3)]
  have "(0::real) < 2 powi m" by simp
  with r have pos: "0 < b64 x" by linarith
  have "2 powi n \<le> (2::real) powi 1023"
    using assms(4) by (intro power_int_increasing) simp_all
  moreover have "(2::real) powi 1023 < 2 ^ 1024" by simp
  ultimately have "b64 x < 2 ^ 1024" using r by linarith
  then show ?thesis using pos by simp
qed

lemma rnd_scale:
  assumes "2 powi m \<le> x" and "x \<le> 2 powi n"
    and "- 1022 \<le> m" and "- 1022 \<le> m + k" and "n + k \<le> 1023"
  shows "rnd (Fin (x * 2 powi k)) = Fin (b64 x * 2 powi k)"
proof -
  have "(0::real) < 2 powi m" by simp
  with assms(1) have xpos: "0 < x" by linarith
  have lo: "2 powi (m + k) \<le> x * 2 powi k"
    using assms(1) by (simp add: power_int_add)
  have hi: "x * 2 powi k \<le> 2 powi (n + k)"
    using assms(2) by (simp add: power_int_add)
  have e: "m \<le> expo x" using assms(1) xpos by (intro expo_ge) simp
  have "rnd (Fin (x * 2 powi k)) = Fin (b64 (x * 2 powi k))"
    using lo hi assms(4,5) by (rule rnd_Fin_range)
  moreover have "b64 (x * 2 powi k) = b64 x * 2 powi k"
    using xpos e assms(3,4) by (intro b64_scale) simp_all
  ultimately show ?thesis by simp
qed

lemma num64_two_power: "k \<le> 100 \<Longrightarrow> num64 (2 ^ k) = Fin (2 ^ k)"
proof -
  assume k: "k \<le> 100"
  have p: "(2::real) ^ k = 2 powi (int k)" by simp
  have "2 powi (int k) \<le> b64 (2 powi int k) \<and> b64 (2 powi int k) \<le> 2 powi (int k)"
    by (rule b64_range) simp_all
  then have "b64 (2 powi int k) = 2 powi int k" by simp
  moreover have "rnd (Fin (2 powi int k)) = Fin (b64 (2 powi int k))"
    using k by (intro rnd_Fin_range [of "int k" _ "int k"]) simp_all
  ultimately show ?thesis by (simp add: num64_def)
qed

lemma power_two_round_trip:
  assumes "2 powi (- 500) \<le> p" and "p \<le> 2 powi 500" and "k \<le> 100"
  shows "div64 (div64 (mul64 (Fin p) (num64 (2 ^ k))) (Fin 1024)) (num64 (2 ^ k))
           = Fin (b64 (b64 (b64 p)) * 2 powi (- 10))"
proof -
  have "(0::real) < 2 powi (- 500)" by simp
  with assms(1) have ppos: "0 < p" by linarith
  define p1 where "p1 = b64 p"
  define p2 where "p2 = b64 p1"
  have r1: "2 powi (- 500) \<le> p1" "p1 \<le> 2 powi 500"
    using b64_range [OF assms(1,2)] by (simp_all add: p1_def)
  have r2: "2 powi (- 500) \<le> p2" "p2 \<le> 2 powi 500"
    using b64_range [OF r1] by (simp_all add: p2_def)
  have p1pos: "0 < p1" using r1(1) \<open>0 < 2 powi (- 500)\<close> by linarith
  have p2pos: "0 < p2" using r2(1) \<open>0 < 2 powi (- 500)\<close> by linarith
  have s1: "mul64 (Fin p) (num64 (2 ^ k)) = Fin (p1 * 2 powi (int k))"
  proof -
    have "js_mul (Fin p) (Fin (2 ^ k)) = Fin (p * 2 powi (int k))"
      using ppos by (simp add: js_mul_Fin)
    moreover have "rnd (Fin (p * 2 powi (int k))) = Fin (b64 p * 2 powi (int k))"
      using assms by (intro rnd_scale [of "- 500" _ 500]) simp_all
    ultimately show ?thesis
      using assms(3) by (simp add: mul64_def num64_two_power p1_def)
  qed
  have s2: "div64 (Fin (p1 * 2 powi (int k))) (Fin 1024) = Fin (p2 * 2 powi (int k - 10))"
  proof -
    have "js_div (Fin (p1 * 2 powi (int k))) (Fin 1024) = Fin (p1 * 2 powi (int k - 10))"
      by (simp add: js_div_Fin power_int_diff)
    moreover have "rnd (Fin (p1 * 2 powi (int k - 10))) = Fin (b64 p1 * 2 powi (int k - 10))"
      using r1 assms(3) by (intro rnd_scale [of "- 500" _ 500]) simp_all
    ultimately show ?thesis
      by (simp add: div64_def p2_def)
  qed
  have s3: "div64 (Fin (p2 * 2 powi (int k - 10))) (num64 (2 ^ k)) = Fin (b64 p2 * 2 powi (- 10))"
  proof -
    have "js_div (Fin (p2 * 2 powi (int k - 10))) (Fin (2 ^ k)) = Fin (p2 * 2 powi (- 10))"
      by (simp add: js_div_Fin power_int_diff)
    moreover have "rnd (Fin (p2 * 2 powi (- 10))) = Fin (b64 p2 * 2 powi (- 10))"
      using r2 by (intro rnd_scale [of "- 500" _ 500]) simp_all
    ultimately show ?thesis
      using assms(3) by (simp add: div64_def num64_two_power)
  qed
  show ?thesis
    by (simp only: s1 s2 s3) (simp add: p2_def p1_def)
qed

lemma between_FinD: "between m n v \<Longrightarrow> \<exists>y. v = Fin y \<and> 2 powi m \<le> y \<and> y \<le> 2 powi n"
  by (cases v) (simp_all add: between_def)

lemma between_rnd:
  assumes "2 powi m \<le> x" and "x \<le> 2 powi n" and "- 1022 \<le> m" and "n \<le> 1023"
  shows "between m n (rnd (Fin x))"
  using rnd_Fin_range [OF assms] b64_range [OF assms(1,2,3)]
  by (simp add: between_def)

lemma between_weaken:
  assumes "between m n v" and "m' \<le> m" and "n \<le> n'"
  shows "between m' n' v"
proof -
  obtain y where y: "v = Fin y" "2 powi m \<le> y" "y \<le> 2 powi n"
    using between_FinD [OF assms(1)] by blast
  have "2 powi m' \<le> (2::real) powi m" using assms(2) by (intro power_int_increasing) simp_all
  moreover have "2 powi n \<le> (2::real) powi n'"
    using assms(3) by (intro power_int_increasing) simp_all
  ultimately show ?thesis using y by (simp add: between_def)
qed

lemma between_mul64:
  assumes "between a b u" and "between a' b' v"
    and "- 1022 \<le> a + a'" and "b + b' \<le> 1023"
  shows "between (a + a') (b + b') (mul64 u v)"
proof -
  obtain x where x: "u = Fin x" "2 powi a \<le> x" "x \<le> 2 powi b"
    using between_FinD [OF assms(1)] by blast
  obtain y where y: "v = Fin y" "2 powi a' \<le> y" "y \<le> 2 powi b'"
    using between_FinD [OF assms(2)] by blast
  have pa: "(0::real) < 2 powi a" "(0::real) < 2 powi a'" by simp_all
  have xpos: "0 < x" using x(2) pa(1) by linarith
  have ypos: "0 < y" using y(2) pa(2) by linarith
  have "2 powi a * 2 powi a' \<le> x * y"
    using x(2) y(2) xpos by (intro mult_mono) simp_all
  then have lo: "2 powi (a + a') \<le> x * y" by (simp add: power_int_add)
  have "x * y \<le> 2 powi b * 2 powi b'"
    using x(3) y(3) ypos by (intro mult_mono) simp_all
  then have hi: "x * y \<le> 2 powi (b + b')" by (simp add: power_int_add)
  have "mul64 u v = rnd (Fin (x * y))"
    using xpos ypos by (simp add: mul64_def x(1) y(1) js_mul_Fin)
  then show ?thesis
    using between_rnd [OF lo hi assms(3,4)] by simp
qed

lemma between_div64_70:
  assumes "between a b u" and "- 1015 \<le> a" and "b \<le> 1029"
  shows "between (a - 7) (b - 6) (div64 u (Fin 70))"
proof -
  obtain x where x: "u = Fin x" "2 powi a \<le> x" "x \<le> 2 powi b"
    using between_FinD [OF assms(1)] by blast
  have "(0::real) < 2 powi a" by simp
  with x(2) have xpos: "0 < x" by linarith
  have "2 powi a / 2 powi 7 \<le> x / 70"
    using x(2) xpos by (intro frac_le) simp_all
  moreover have "(2::real) powi (a - 7) = 2 powi a / 2 powi 7"
    by (rule power_int_diff) simp
  ultimately have lo: "2 powi (a - 7) \<le> x / 70" by (simp only:)
  have "x / 70 \<le> 2 powi b / 2 powi 6"
    using x(3) xpos by (intro frac_le) simp_all
  moreover have "(2::real) powi (b - 6) = 2 powi b / 2 powi 6"
    by (rule power_int_diff) simp
  ultimately have hi: "x / 70 \<le> 2 powi (b - 6)" by (simp only:)
  have "div64 u (Fin 70) = rnd (Fin (x / 70))"
    by (simp add: div64_def x(1) js_div_Fin)
  then show ?thesis
    using between_rnd [OF lo hi] assms(2,3) by simp
qed

lemma kvCachePerTokenMB_b64_range:
  assumes "1 \<le> modelSize c" and "modelSize c \<le> 1024"
  shows "between (- 9) 3 (kvCachePerTokenMB_b64 c)"
proof -
  have m: "between 0 10 (num64 (modelSize c))"
    unfolding num64_def using assms by (intro between_rnd) simp_all
  have k: "between (- 2) (- 1) (num64 0.41)"
    unfolding num64_def by (intro between_rnd) (simp_all add: power_int_minus)
  have d: "between (0 - 7) (10 - 6) (div64 (num64 (modelSize c)) (Fin 70))"
    using m by (rule between_div64_70) simp_all
  have "between ((0 - 7) + (- 2)) ((10 - 6) + (- 1))
          (mul64 (div64 (num64 (modelSize c)) (Fin 70)) (num64 0.41))"
    using d k by (rule between_mul64) simp_all
  then have e: "between (- 9) 3 (mul64 (div64 (num64 (modelSize c)) (Fin 70)) (num64 0.41))"
    by simp
  have t: "between (- 9) 3 (num64 0.41)"
    using k by (rule between_weaken) simp_all
  show ?thesis
    using e t by (simp add: kvCachePerTokenMB_b64_def)
qed

lemma kv_sequence_product_range:
  assumes "1 \<le> modelSize c" and "modelSize c \<le> 1024"
    and "1 \<le> sequenceLength c" and "sequenceLength c \<le> 2 ^ 20"
  shows "between (- 9) 23 (mul64 (kvCachePerTokenMB_b64 c) (num64 (sequenceLength c)))"
proof -
  have s: "between 0 20 (num64 (sequenceLength c))"
    unfolding num64_def using assms(3,4) by (intro between_rnd) simp_all
  have "between (- 9 + 0) (3 + 20) (mul64 (kvCachePerTokenMB_b64 c) (num64 (sequenceLength c)))"
    using kvCachePerTokenMB_b64_range [OF assms(1,2)] s by (rule between_mul64) simp_all
  then show ?thesis by simp
qed

lemma kvCachePerBatchGB_b64_power_two:
  assumes "1 \<le> modelSize c" and "modelSize c \<le> 1024"
    and "1 \<le> sequenceLength c" and "sequenceLength c \<le> 2 ^ 20"
    and "mul64 (kvCachePerTokenMB_b64 c) (num64 (sequenceLength c)) = Fin p"
    and "batchSize c = 2 ^ k" and "k \<le> 100"
  shows "kvCachePerBatchGB_b64 c = Fin (b64 (b64 (b64 p)) * 2 powi (- 10))"
proof -
  have "between (- 9) 23 (Fin p)"
    using kv_sequence_product_range [OF assms(1,2,3,4)] by (simp add: assms(5))
  then have "between (- 500) 500 (Fin p)"
    by (rule between_weaken) simp_all
  then have r: "2 powi (- 500) \<le> p" "p \<le> 2 powi 500"
    by (simp_all add: between_def)
  show ?thesis
    using power_two_round_trip [OF r assms(7)]
    by (simp add: kvCachePerBatchGB_b64_def kvCacheTotalGB_b64_def assms(5,6))
qed

lemma whole_pos_ge_one: "whole x \<Longrightarrow> 0 < x \<Longrightarrow> 1 \<le> x"
proof -
  assume w: "whole x" and p: "0 < x"
  have "0 < \<lfloor>x\<rfloor>"
    using w p by (metis of_int_0_less_iff whole_def)
  then have "1 \<le> \<lfloor>x\<rfloor>" by simp
  then have "(1::real) \<le> of_int \<lfloor>x\<rfloor>" by linarith
  then show ?thesis using w by (simp add: whole_def)
qed

lemma maxBatchSize_b64_power_two:
  assumes "valid_config c" and "c' = c\<lparr>batchSize := batchSize c'\<rparr>"
    and "batchSize c = 2 ^ j" and "batchSize c' = 2 ^ k" and "j \<le> 100" and "k \<le> 100"
    and "1 \<le> modelSize c" and "modelSize c \<le> 1024" and "sequenceLength c \<le> 2 ^ 20"
  shows "maxBatchSize_b64 c' = maxBatchSize_b64 c"
proof -
  have eq: "modelSize c' = modelSize c" "sequenceLength c' = sequenceLength c"
    "numGpus c' = numGpus c" "precision c' = precision c" "gpuType c' = gpuType c"
    by (subst assms(2), simp)+
  have s: "1 \<le> sequenceLength c"
    using assms(1) by (simp add: valid_config_def whole_pos_ge_one)
  obtain p where p: "mul64 (kvCachePerTokenMB_b64 c) (num64 (sequenceLength c)) = Fin p"
    using between_FinD [OF kv_sequence_product_range [OF assms(7,8) s assms(9)]] by blast
  have kv: "kvCachePerTokenMB_b64 c' = kvCachePerTokenMB_b64 c"
    by (simp add: kvCachePerTokenMB_b64_def eq)
  have p': "mul64 (kvCachePerTokenMB_b64 c') (num64 (sequenceLength c')) = Fin p"
    using p by (simp add: kv eq)
  have "kvCachePerBatchGB_b64 c = Fin (b64 (b64 (b64 p)) * 2 powi (- 10))"
    using assms(7,8) s assms(9) p assms(3,5) by (rule kvCachePerBatchGB_b64_power_two)
  moreover have "kvCachePerBatchGB_b64 c' = Fin (b64 (b64 (b64 p)) * 2 powi (- 10))"
    using assms(7,8) s assms(9) p' assms(4,6)
    by (intro kvCachePerBatchGB_b64_power_two) (simp_all add: eq)
  ultimately have "kvCachePerBatchGB_b64 c' = kvCachePerBatchGB_b64 c" by simp
  moreover have "totalGpuMemory_b64 c' = totalGpuMemory_b64 c"
    by (simp add: totalGpuMemory_b64_def gpu_def eq)
  moreover have "modelWeightsGB_b64 c' = modelWeightsGB_b64 c"
    by (simp add: modelWeightsGB_b64_def eq)
  ultimately show ?thesis
    by (simp add: maxBatchSize_b64_def)
qed

lemmas b64_eval =
  num64_def mul64_def div64_def sub64_def b64_def quantum_def expo_def compute_bitlen
  round_even_def power_int_minus

lemmas chain64_defs =
  modelWeightsGB_b64_def kvCachePerTokenMB_b64_def kvCacheTotalGB_b64_def
  totalGpuMemory_b64_def kvCachePerBatchGB_b64_def maxBatchSize_b64_def gpu_def


section \<open>Memory sizing\<close>

text \<open>
  C3. On every valid configuration the weights memory that \<open>calculateInference\<close> reports is
  \<open>modelSize * precision / 8\<close> gigabytes; for a model of 70 billion parameters at 16 bits
  it is 140.
\<close>

theorem weights_memory_formula:
  "valid_config c \<Longrightarrow>
   modelWeightsGB (inferenceResults c) = Fin (modelSize c * precision c / 8) \<and>
   (modelSize c = 70 \<and> precision c = 16 \<longrightarrow> modelWeightsGB (inferenceResults c) = Fin 140)"
  by (simp add: inferenceResults_def modelWeightsGB_valid)

theorem weights_memory_formula_witness:
  "valid_config initialConfig \<and> modelSize initialConfig = 70 \<and> precision initialConfig = 16 \<and>
   modelWeightsGB (inferenceResults initialConfig) = Fin 140"
  using weights_memory_formula [of initialConfig]
  by (simp add: valid_config_def initialConfig_def whole_def)

text \<open>
  C4. On every valid configuration the per-token KV-cache size from which the reported
  KV-cache total is computed is \<open>0.41 * (modelSize / 70)\<close> megabytes: 0.41 at a model size
  of 70 and 0.041 at a model size of 7.
\<close>

theorem kv_cache_per_token_linear:
  "valid_config c \<Longrightarrow>
   kvCachePerTokenMB c = Fin (0.41 * (modelSize c / 70)) \<and>
   (modelSize c = 70 \<longrightarrow> kvCachePerTokenMB c = Fin 0.41) \<and>
   (modelSize c = 7 \<longrightarrow> kvCachePerTokenMB c = Fin 0.041) \<and>
   kvCacheTotalGB (inferenceResults c) =
     js_div (js_mul (js_mul (kvCachePerTokenMB c) (Fin (sequenceLength c))) (Fin (batchSize c)))
            (Fin 1024)"
  by (simp add: kvCachePerTokenMB_valid inferenceResults_def kvCacheTotalGB_num_def)

theorem kv_cache_per_token_linear_witness:
  "valid_config initialConfig \<and> modelSize initialConfig = 70 \<and>
   kvCachePerTokenMB initialConfig = Fin 0.41 \<and>
   valid_config (initialConfig\<lparr>modelSize := 7\<rparr>) \<and>
   modelSize (initialConfig\<lparr>modelSize := 7\<rparr>) = 7 \<and>
   kvCachePerTokenMB (initialConfig\<lparr>modelSize := 7\<rparr>) = Fin 0.041"
  using kv_cache_per_token_linear [of initialConfig]
    kv_cache_per_token_linear [of "initialConfig\<lparr>modelSize := 7\<rparr>"]
  by (simp add: valid_config_def initialConfig_def whole_def)

text \<open>
  C5. Between two valid configurations that differ only in the sequence length, only in the
  batch size or only in the model size, the reported memory utilization does not decrease
  when that field grows; between two that differ only in the number of GPUs it does not
  increase when the number grows.
\<close>

theorem memory_utilization_monotone:
  assumes "valid_config c" and "valid_config c'"
  shows
   "(c' = c\<lparr>sequenceLength := sequenceLength c'\<rparr> \<and> sequenceLength c \<le> sequenceLength c' \<longrightarrow>
       fin_le (memoryUtilization (inferenceResults c)) (memoryUtilization (inferenceResults c'))) \<and>
    (c' = c\<lparr>batchSize := batchSize c'\<rparr> \<and> batchSize c \<le> batchSize c' \<longrightarrow>
       fin_le (memoryUtilization (inferenceResults c)) (memoryUtilization (inferenceResults c'))) \<and>
    (c' = c\<lparr>modelSize := modelSize c'\<rparr> \<and> modelSize c \<le> modelSize c' \<longrightarrow>
       fin_le (memoryUtilization (inferenceResults c)) (memoryUtilization (inferenceResults c'))) \<and>
    (c' = c\<lparr>numGpus := numGpus c'\<rparr> \<and> numGpus c \<le> numGpus c' \<longrightarrow>
       fin_le (memoryUtilization (inferenceResults c')) (memoryUtilization (inferenceResults c)))"
proof (intro conjI impI)
  assume h: "c' = c\<lparr>sequenceLength := sequenceLength c'\<rparr> \<and> sequenceLength c \<le> sequenceLength c'"
  then have "c' = c\<lparr>sequenceLength := sequenceLength c'\<rparr>" by simp
  then have "numGpus c' = numGpus c" "precision c' = precision c" "modelSize c' = modelSize c"
    "batchSize c' = batchSize c"
    by (metis InferenceConfig.select_convs InferenceConfig.surjective InferenceConfig.update_convs)+
  then show "fin_le (memoryUtilization (inferenceResults c)) (memoryUtilization (inferenceResults c'))"
    using memoryUtilization_mono [OF assms] h by (simp add: inferenceResults_def)
next
  assume h: "c' = c\<lparr>batchSize := batchSize c'\<rparr> \<and> batchSize c \<le> batchSize c'"
  then have "c' = c\<lparr>batchSize := batchSize c'\<rparr>" by simp
  then have "numGpus c' = numGpus c" "precision c' = precision c" "modelSize c' = modelSize c"
    "sequenceLength c' = sequenceLength c"
    by (metis InferenceConfig.select_convs InferenceConfig.surjective InferenceConfig.update_convs)+
  then show "fin_le (memoryUtilization (inferenceResults c)) (memoryUtilization (inferenceResults c'))"
    using memoryUtilization_mono [OF assms] h by (simp add: inferenceResults_def)
next
  assume h: "c' = c\<lparr>modelSize := modelSize c'\<rparr> \<and> modelSize c \<le> modelSize c'"
  then have "c' = c\<lparr>modelSize := modelSize c'\<rparr>" by simp
  then have "numGpus c' = numGpus c" "precision c' = precision c" "batchSize c' = batchSize c"
    "sequenceLength c' = sequenceLength c"
    by (metis InferenceConfig.select_convs InferenceConfig.surjective InferenceConfig.update_convs)+
  then show "fin_le (memoryUtilization (inferenceResults c)) (memoryUtilization (inferenceResults c'))"
    using memoryUtilization_mono [OF assms] h by (simp add: inferenceResults_def)
next
  assume h: "c' = c\<lparr>numGpus := numGpus c'\<rparr> \<and> numGpus c \<le> numGpus c'"
  then have "c' = c\<lparr>numGpus := numGpus c'\<rparr>" by simp
  then have "modelSize c' = modelSize c" "precision c' = precision c" "batchSize c' = batchSize c"
    "sequenceLength c' = sequenceLength c"
    by (metis InferenceConfig.select_convs InferenceConfig.surjective InferenceConfig.update_convs)+
  then show "fin_le (memoryUtilization (inferenceResults c')) (memoryUtilization (inferenceResults c))"
    using memoryUtilization_antimono [OF assms] h by (simp add: inferenceResults_def)
qed

theorem memory_utilization_monotone_witness:
  "valid_config initialConfig \<and>
   valid_config (initialConfig\<lparr>sequenceLength := 4096\<rparr>) \<and>
   fin_le (memoryUtilization (inferenceResults initialConfig))
          (memoryUtilization (inferenceResults (initialConfig\<lparr>sequenceLength := 4096\<rparr>))) \<and>
   valid_config (initialConfig\<lparr>batchSize := 8\<rparr>) \<and>
   fin_le (memoryUtilization (inferenceResults initialConfig))
          (memoryUtilization (inferenceResults (initialConfig\<lparr>batchSize := 8\<rparr>))) \<and>
   valid_config (initialConfig\<lparr>modelSize := 13\<rparr>) \<and>
   fin_le (memoryUtilization (inferenceResults (initialConfig\<lparr>modelSize := 13\<rparr>)))
          (memoryUtilization (inferenceResults initialConfig)) \<and>
   valid_config (initialConfig\<lparr>numGpus := 4\<rparr>) \<and>
   fin_le (memoryUtilization (inferenceResults (initialConfig\<lparr>numGpus := 4\<rparr>)))
          (memoryUtilization (inferenceResults initialConfig))"
  using memory_utilization_monotone [of initialConfig "initialConfig\<lparr>sequenceLength := 4096\<rparr>"]
    memory_utilization_monotone [of initialConfig "initialConfig\<lparr>batchSize := 8\<rparr>"]
    memory_utilization_monotone [of "initialConfig\<lparr>modelSize := 13\<rparr>" initialConfig]
    memory_utilization_monotone [of initialConfig "initialConfig\<lparr>numGpus := 4\<rparr>"]
  by (simp add: valid_config_def initialConfig_def whole_def)


section \<open>Prefill throughput\<close>

text \<open>
  C6. Two valid configurations that agree on every field except the batch size and the
  sequence length report the same prompt throughput, which is a function of the prompt
  tokens, the model size, the effective compute figure of the GPU and the number of GPUs.
\<close>

theorem prefill_throughput_independent:
  assumes "valid_config c" and "valid_config c'"
    and "c' = c\<lparr>batchSize := batchSize c', sequenceLength := sequenceLength c'\<rparr>"
  shows "promptTokensPerSecond (inferenceResults c') = promptTokensPerSecond (inferenceResults c) \<and>
         promptTokensPerSecond (inferenceResults c) =
           Fin (promptTokens c
                / (2 * modelSize c * 10 ^ 9 * promptTokens c
                   / (computeThroughputEffective (gpu c) * numGpus c * 10 ^ 12)))"
proof -
  have "modelSize c' = modelSize c" "promptTokens c' = promptTokens c"
    "numGpus c' = numGpus c" "gpuType c' = gpuType c"
    by (subst assms(3), simp)+
  then have "promptTokensPerSecond_num c' = promptTokensPerSecond_num c"
    by (simp add: promptTokensPerSecond_num_def promptProcessingTime_num_def promptFlops_def
          flopsPerToken_def modelParams_def totalComputeThroughput_def gpu_def)
  then show ?thesis
    using assms(1) by (simp add: inferenceResults_def promptTokensPerSecond_valid)
qed

theorem prefill_throughput_independent_witness:
  "valid_config initialConfig \<and>
   valid_config (initialConfig\<lparr>batchSize := 8, sequenceLength := 4096\<rparr>) \<and>
   promptTokensPerSecond (inferenceResults (initialConfig\<lparr>batchSize := 8, sequenceLength := 4096\<rparr>))
     = promptTokensPerSecond (inferenceResults initialConfig)"
  using prefill_throughput_independent
    [of initialConfig "initialConfig\<lparr>batchSize := 8, sequenceLength := 4096\<rparr>"]
  by (simp add: valid_config_def initialConfig_def whole_def)


section \<open>Batch sizes\<close>



text \<open>
  C9. With 70 billion parameters at 32 bits on a single 80 GB GPU, a configuration within
  the ranges of the input fields, the weights take 280 GB, the reported maximum batch size
  is the negative number -244, the optimal batch size is the same -244, and the results
  are stored as for any other input.
\<close>

theorem weights_exceed_memory_negative_batch:
  "valid_config (initialConfig\<lparr>precision := 32, numGpus := 1\<rparr>) \<and>
   modelWeightsGB (inferenceResults (initialConfig\<lparr>precision := 32, numGpus := 1\<rparr>)) = Fin 280 \<and>
   totalGpuMemory (initialConfig\<lparr>precision := 32, numGpus := 1\<rparr>) = Fin 80 \<and>
   maxBatchSize (inferenceResults (initialConfig\<lparr>precision := 32, numGpus := 1\<rparr>)) = Fin (- 244) \<and>
   optimalBatchSize (inferenceResults (initialConfig\<lparr>precision := 32, numGpus := 1\<rparr>)) = Fin (- 244) \<and>
   results (calculateInference \<lparr>config = initialConfig\<lparr>precision := 32, numGpus := 1\<rparr>, results = None\<rparr>)
     = Some (inferenceResults (initialConfig\<lparr>precision := 32, numGpus := 1\<rparr>))"
  by (simp add: valid_config_def initialConfig_def whole_def inferenceResults_def locals_defs
        js_defs calculateInference_def)

text \<open>
  C10, as stated, fails for the binary64 computation: multiplying by the batch size and
  dividing by it again does not always give the value back. With 70 billion parameters at
  8 bits on 6 GPUs and a sequence length of 256, the maximum batch size is 4000 at a batch
  size of 1 and 3999 at a batch size of 13.
\<close>

theorem binary64_batch_size_counterexample:
  "valid_config (initialConfig\<lparr>precision := 8, numGpus := 6, sequenceLength := 256\<rparr>) \<and>
   valid_config (initialConfig\<lparr>precision := 8, numGpus := 6, sequenceLength := 256, batchSize := 13\<rparr>) \<and>
   maxBatchSize_b64 (initialConfig\<lparr>precision := 8, numGpus := 6, sequenceLength := 256\<rparr>)
     = Fin 4000 \<and>
   maxBatchSize_b64 (initialConfig\<lparr>precision := 8, numGpus := 6, sequenceLength := 256, batchSize := 13\<rparr>)
     = Fin 3999"
  by (simp add: valid_config_def whole_def initialConfig_def chain64_defs js_defs b64_eval)

text \<open>
  C10, amended. Between two valid configurations that differ only in the batch size, the
  maximum batch size is the same when the expressions of \<open>calculateInference\<close> are
  evaluated in exact arithmetic, where the divisor \<open>kvCacheTotalGB / batchSize\<close> is
  \<open>kvCachePerTokenMB * sequenceLength / 1024\<close>. In binary64 it is the same when both
  batch sizes are powers of two (up to \<open>2 ^ 100\<close>), the model size lies between 1 and
  1024 and the sequence length is at most \<open>2 ^ 20\<close>.
\<close>

theorem batch_size_cancels:
  assumes "valid_config c" and "valid_config c'" and "c' = c\<lparr>batchSize := batchSize c'\<rparr>"
  shows "maxBatchSize (inferenceResults c') = maxBatchSize (inferenceResults c) \<and>
         kvCachePerBatchGB c =
           js_div (js_mul (kvCachePerTokenMB c) (Fin (sequenceLength c))) (Fin 1024) \<and>
         (batchSize c = 2 ^ j \<and> batchSize c' = 2 ^ k \<and> j \<le> 100 \<and> k \<le> 100 \<and>
          1 \<le> modelSize c \<and> modelSize c \<le> 1024 \<and> sequenceLength c \<le> 2 ^ 20 \<longrightarrow>
            maxBatchSize_b64 c' = maxBatchSize_b64 c)"
proof -
  have eq: "modelSize c' = modelSize c" "sequenceLength c' = sequenceLength c"
    "numGpus c' = numGpus c" "precision c' = precision c"
    by (subst assms(3), simp)+
  have "maxBatchSize_num c' = maxBatchSize_num c"
    using assms(1,2) by (simp add: maxBatchSize_valid eq)
  moreover have "kvCachePerBatchGB c =
      js_div (js_mul (kvCachePerTokenMB c) (Fin (sequenceLength c))) (Fin 1024)"
    using assms(1)
    by (simp add: kvCachePerBatchGB_valid kvCachePerTokenMB_valid)
       (simp add: valid_config_def js_mul_Fin js_div_Fin)
  moreover have "batchSize c = 2 ^ j \<and> batchSize c' = 2 ^ k \<and> j \<le> 100 \<and> k \<le> 100 \<and>
      1 \<le> modelSize c \<and> modelSize c \<le> 1024 \<and> sequenceLength c \<le> 2 ^ 20 \<longrightarrow>
      maxBatchSize_b64 c' = maxBatchSize_b64 c"
    using maxBatchSize_b64_power_two [OF assms(1,3)] by blast
  ultimately show ?thesis
    by (simp add: inferenceResults_def)
qed

theorem batch_size_cancels_witness:
  "valid_config initialConfig \<and> valid_config (initialConfig\<lparr>batchSize := 8\<rparr>) \<and>
   maxBatchSize (inferenceResults (initialConfig\<lparr>batchSize := 8\<rparr>)) = Fin 24 \<and>
   maxBatchSize (inferenceResults initialConfig) = Fin 24 \<and>
   batchSize initialConfig = 2 ^ 0 \<and> batchSize (initialConfig\<lparr>batchSize := 8\<rparr>) = 2 ^ 3 \<and>
   maxBatchSize_b64 (initialConfig\<lparr>batchSize := 8\<rparr>) = Fin 24 \<and>
   maxBatchSize_b64 initialConfig = Fin 24"
  using batch_size_cancels
    [of initialConfig "initialConfig\<lparr>batchSize := 8\<rparr>" 0 3]
  by (simp add: valid_config_def initialConfig_def whole_def inferenceResults_def locals_defs
        js_defs chain64_defs b64_eval)

text \<open>
  C2, as the specification states it, fails: with a sequence length of 0 the KV cache per
  batch is zero, and on a single GPU with 70 billion parameters at 32 bits the reported
  maximum batch size is the negative infinity, not a value that stands for "unbounded".
\<close>

theorem unbounded_sentinel_counterexample:
  "is_zero (kvCachePerBatchGB (initialConfig\<lparr>precision := 32, numGpus := 1, sequenceLength := 0\<rparr>)) \<and>
   maxBatchSize (inferenceResults (initialConfig\<lparr>precision := 32, numGpus := 1, sequenceLength := 0\<rparr>))
     = NInf \<and>
   optimalBatchSize (inferenceResults (initialConfig\<lparr>precision := 32, numGpus := 1, sequenceLength := 0\<rparr>))
     = NInf"
  by (simp add: initialConfig_def inferenceResults_def locals_defs js_defs)

text \<open>
  C2, amended. When the KV cache per batch is a zero, the reported maximum batch size is
  the quotient of the memory headroom (the memory of all GPUs minus the weights) by that
  zero: \<open>NaN\<close> when the headroom is zero, otherwise the infinity whose sign is the product
  of the signs of the headroom and of the zero. The source has no separate sentinel.
\<close>

theorem max_batch_size_zero_divisor:
  "is_zero (kvCachePerBatchGB c) \<Longrightarrow>
   maxBatchSize (inferenceResults c) =
     (if memory (gpu c) * numGpus c - modelSize c * precision c / 8 = 0 then NaN
      else signed_inf ((memory (gpu c) * numGpus c - modelSize c * precision c / 8 < 0)
                        \<noteq> signbit (kvCachePerBatchGB c)))"
  by (simp add: inferenceResults_def maxBatchSize_num_def headroom_any js_div_by_zero
        js_floor_signed_inf)

theorem max_batch_size_zero_divisor_witness:
  "is_zero (kvCachePerBatchGB (initialConfig\<lparr>sequenceLength := 0\<rparr>)) \<and>
   maxBatchSize (inferenceResults (initialConfig\<lparr>sequenceLength := 0\<rparr>)) = PInf"
  using max_batch_size_zero_divisor [of "initialConfig\<lparr>sequenceLength := 0\<rparr>"]
  by (simp add: initialConfig_def locals_defs js_defs)


section \<open>Failure and determinism\<close>

text \<open>
  C1, as the specification states it, fails: a sequence length of 0, and a precision of 12
  bits, are computed with like any other value and a complete result is stored.
\<close>

theorem invalid_config_counterexample:
  "\<not> valid_config (initialConfig\<lparr>sequenceLength := 0\<rparr>) \<and>
   results (calculateInference \<lparr>config = initialConfig\<lparr>sequenceLength := 0\<rparr>, results = None\<rparr>)
     = Some (inferenceResults (initialConfig\<lparr>sequenceLength := 0\<rparr>)) \<and>
   kvCacheTotalGB (inferenceResults (initialConfig\<lparr>sequenceLength := 0\<rparr>)) = Fin 0 \<and>
   maxBatchSize (inferenceResults (initialConfig\<lparr>sequenceLength := 0\<rparr>)) = PInf \<and>
   optimalBatchSize (inferenceResults (initialConfig\<lparr>sequenceLength := 0\<rparr>)) = Fin 64 \<and>
   \<not> valid_config (initialConfig\<lparr>precision := 12\<rparr>) \<and>
   modelWeightsGB (inferenceResults (initialConfig\<lparr>precision := 12\<rparr>)) = Fin 105"
  by (simp add: valid_config_def initialConfig_def whole_def inferenceResults_def locals_defs
        js_defs calculateInference_def)

text \<open>
  C1, amended. \<open>calculateInference\<close> checks nothing and has no failing path: for every
  configuration, valid or not, it stores the complete results computed from that
  configuration and leaves the configuration as it is. A GPU type outside the table is
  excluded by the type of \<open>gpuType\<close>.
\<close>

theorem calculateInference_never_fails:
  "results (calculateInference s) = Some (inferenceResults (config s)) \<and>
   config (calculateInference s) = config s"
  by (simp add: calculateInference_def)

text \<open>
  C8. The results that \<open>calculateInference\<close> stores depend on the configuration alone,
  not on the results held before, so two runs on the same configuration store the same
  results, and a second run changes nothing.
\<close>

theorem calculateInference_deterministic:
  "config s = config s' \<Longrightarrow>
   results (calculateInference s) = results (calculateInference s') \<and>
   calculateInference (calculateInference s) = calculateInference s"
  by (simp add: calculateInference_def)

theorem calculateInference_deterministic_witness:
  "config \<lparr>config = initialConfig, results = None\<rparr>
     = config \<lparr>config = initialConfig, results = Some (inferenceResults (initialConfig\<lparr>batchSize := 8\<rparr>))\<rparr> \<and>
   results (calculateInference \<lparr>config = initialConfig, results = None\<rparr>)
     = results (calculateInference
         \<lparr>config = initialConfig, results = Some (inferenceResults (initialConfig\<lparr>batchSize := 8\<rparr>))\<rparr>)"
  using calculateInference_deterministic
    [of "\<lparr>config = initialConfig, results = None\<rparr>"
        "\<lparr>config = initialConfig, results = Some (inferenceResults (initialConfig\<lparr>batchSize := 8\<rparr>))\<rparr>"]
  by simp

end
